theory Spec2Isabelle
  imports Complex_Main "HOL-Library.Word" "HOL-Library.Log_Nat"
begin

section \<open>Node entry points and their outcomes\<close>

text \<open>
  The module \<^verbatim>\<open>nodes.py\<close> defines seven node classes. The host calls one method of a
  node (named by \<^verbatim>\<open>FUNCTION\<close>) and receives a tuple of outputs, or the exception the
  method raised. An entry point is modelled as a function to an \<open>outcome\<close>: the list of
  file-system calls it made, in order, and either the exception or the returned tuple.
\<close>

datatype error =
    FileNotFoundError string  \<comment> \<open>raised at line 150, with its message\<close>
  | DecodeFailure             \<comment> \<open>an exception of PIL, propagated\<close>
  | RuntimeError              \<comment> \<open>\<^verbatim>\<open>torch.cat\<close> refusing its arguments\<close>
  | IndexError                \<comment> \<open>\<^verbatim>\<open>output_images[0]\<close> on an empty list\<close>

datatype fs_event =
    Call_exists string        \<comment> \<open>\<^verbatim>\<open>os.path.exists(p)\<close>\<close>
  | Call_open string          \<comment> \<open>\<^verbatim>\<open>Image.open(p)\<close> and the reading of its frames\<close>

type_synonym 'a outcome = "fs_event list \<times> (error + 'a)"

subsection \<open>Parameter nodes (lines 17 to 127)\<close>

text \<open>
  Each class has \<^verbatim>\<open>def get_value(self, value): return (value,)\<close>. Python does not look
  at the type of \<open>value\<close>, so the argument is polymorphic; the one-element tuple is a
  one-element list.
\<close>

definition ParamString_get_value :: "'a \<Rightarrow> 'a list outcome" where
  "ParamString_get_value value = ([], Inr [value])"

definition ParamInt_get_value :: "'a \<Rightarrow> 'a list outcome" where
  "ParamInt_get_value value = ([], Inr [value])"

definition ParamFloat_get_value :: "'a \<Rightarrow> 'a list outcome" where
  "ParamFloat_get_value value = ([], Inr [value])"

definition ParamBoolean_get_value :: "'a \<Rightarrow> 'a list outcome" where
  "ParamBoolean_get_value value = ([], Inr [value])"

definition ParamUniversal_get_value :: "'a \<Rightarrow> 'a list outcome" where
  "ParamUniversal_get_value value = ([], Inr [value])"

subsection \<open>Model switch (lines 203 to 207)\<close>

definition switch :: "'a \<Rightarrow> 'a \<Rightarrow> bool \<Rightarrow> 'a list outcome" where
  "switch model_a model_b select_b =
     (if select_b then ([], Inr [model_b]) else ([], Inr [model_a]))"

subsection \<open>The any-type marker (lines 10 to 14)\<close>

text \<open>
  \<^verbatim>\<open>class AnyType(str)\<close> binds one name in its body, \<^verbatim>\<open>__ne__\<close>, a method that returns
  \<^verbatim>\<open>False\<close> whatever its argument. An instance is a string; \<^verbatim>\<open>any = AnyType("*")\<close>.
\<close>

definition AnyType_ne :: "string \<Rightarrow> 'a \<Rightarrow> bool" where
  "AnyType_ne self x = False"

definition any :: string where
  "any = ''*''"

definition AnyType_body :: "string list" where
  "AnyType_body = [''__ne__'']"

text \<open>
  Creating a class puts names of the interpreter's own into the class namespace, beside
  those of the body. For a subclass of \<^verbatim>\<open>str\<close> without \<^verbatim>\<open>__slots__\<close> CPython adds
  \<^verbatim>\<open>__module__\<close>, \<^verbatim>\<open>__dict__\<close>, \<^verbatim>\<open>__weakref__\<close> and \<^verbatim>\<open>__doc__\<close> (the list
  \<open>cpython_implicit\<close>; later versions add further entries, so the list is a parameter
  \<open>implicit\<close> of the lookup). Attribute lookup on an instance follows the method
  resolution order \<^verbatim>\<open>AnyType, str, object\<close>: a name of the class namespace is taken from
  \<^verbatim>\<open>AnyType\<close>, every other one from \<^verbatim>\<open>str\<close> (which stands for \<^verbatim>\<open>str\<close> and its base).
\<close>

definition cpython_implicit :: "string list" where
  "cpython_implicit = [''__module__'', ''__dict__'', ''__weakref__'', ''__doc__'']"

definition AnyType_namespace :: "string list \<Rightarrow> string list" where
  "AnyType_namespace implicit = implicit @ AnyType_body"

datatype pyclass = Class_AnyType | Class_str

definition defining_class :: "string list \<Rightarrow> string \<Rightarrow> pyclass" where
  "defining_class implicit name =
     (if name \<in> set (AnyType_namespace implicit) then Class_AnyType else Class_str)"

text \<open>
  The operator \<^verbatim>\<open>self != x\<close> with an \<^verbatim>\<open>AnyType\<close> instance on the left. Python calls the
  \<^verbatim>\<open>__ne__\<close> of the left operand's class, with one exception: when the class of \<open>x\<close> is
  a proper subclass of the class of \<open>self\<close>, the \<^verbatim>\<open>__ne__\<close> of the class of \<open>x\<close> is
  called first, on \<open>x\<close> and \<open>self\<close>, and its answer is the result unless it is
  \<^verbatim>\<open>NotImplemented\<close>. So a right operand is either an object whose class is no proper
  subclass of \<^verbatim>\<open>AnyType\<close> (a string, a number, another \<^verbatim>\<open>AnyType\<close> instance), or an
  instance of such a subclass, given by what the \<^verbatim>\<open>__ne__\<close> of its class answers for
  the other operand (\<open>None\<close> for \<^verbatim>\<open>NotImplemented\<close>).
\<close>

datatype 'a pyobj =
    Plain 'a
  | Subclass_instance "string \<Rightarrow> bool option"

definition ne_operator :: "string \<Rightarrow> 'a pyobj \<Rightarrow> bool" where
  "ne_operator self x =
     (case x of
        Plain _ \<Rightarrow> AnyType_ne self x
      | Subclass_instance reflected_ne \<Rightarrow>
          (case reflected_ne self of
             Some answer \<Rightarrow> answer
           | None \<Rightarrow> AnyType_ne self x))"

text \<open>
  The module defines no subclass of \<^verbatim>\<open>AnyType\<close>. Two that a caller can define:
  \<^verbatim>\<open>class Sub(AnyType)\<close> with \<^verbatim>\<open>def __ne__(self, other): return True\<close>, and
  \<^verbatim>\<open>class Deferring(AnyType)\<close> with \<^verbatim>\<open>def __ne__(self, other): return NotImplemented\<close>.
\<close>

definition Sub_ne :: "string \<Rightarrow> bool option" where
  "Sub_ne other = Some True"

definition sub_instance :: "'a pyobj" where
  "sub_instance = Subclass_instance Sub_ne"

definition Deferring_ne :: "string \<Rightarrow> bool option" where
  "Deferring_ne other = None"

section \<open>Arrays and float32\<close>

text \<open>
  A numpy array or torch tensor is its shape and its elements in row-major order (both
  libraries keep a freshly built array contiguous). A sample of an 8-bit image is a byte.
\<close>

type_synonym u8 = "8 word"

record 'a ndarray =
  shape :: "nat list"
  data :: "'a list"

definition wf_array :: "'a ndarray \<Rightarrow> bool" where
  "wf_array t = (length (data t) = prod_list (shape t))"

text \<open>
  A finite float32 is the rational number it denotes. \<open>f32_round\<close> rounds a rational to
  the nearest float32, ties to even: 24 significant bits, the least exponent \<open>-126\<close>
  (below it the spacing stays \<open>2 powi (-149)\<close>). Overflow to infinity is not modelled: the
  numbers rounded here are at most 255 in absolute value.
\<close>

type_synonym f32 = rat

definition round_half_even :: "rat \<Rightarrow> int" where
  "round_half_even q =
     (let f = \<lfloor>q\<rfloor>; d = q - of_int f
      in if d < 1 / 2 then f else if 1 / 2 < d then f + 1
         else if even f then f else f + 1)"

definition ilog2 :: "rat \<Rightarrow> int" where
  "ilog2 q =
     (let (a, b) = quotient_of q; d = bitlen a - bitlen b
      in if 2 powi d \<le> q then d else d - 1)"

definition f32_round :: "rat \<Rightarrow> f32" where
  "f32_round q =
     (if q = 0 then 0
      else let e = max (ilog2 \<bar>q\<bar>) (- 126); ulp = 2 powi (e - 23)
           in sgn q * of_int (round_half_even (\<bar>q\<bar> / ulp)) * ulp)"

text \<open>\<^verbatim>\<open>a.astype(np.float32)\<close> on bytes is exact: every byte is a float32.\<close>

definition astype_float32 :: "u8 ndarray \<Rightarrow> f32 ndarray" where
  "astype_float32 a = \<lparr>shape = shape a, data = map (\<lambda>x. of_nat (unat x)) (data a)\<rparr>"

text \<open>\<^verbatim>\<open>a / c\<close> and \<^verbatim>\<open>c - t\<close> with a scalar: elementwise, each result rounded to float32.\<close>

definition div_scalar :: "f32 ndarray \<Rightarrow> rat \<Rightarrow> f32 ndarray" where
  "div_scalar a c = \<lparr>shape = shape a, data = map (\<lambda>v. f32_round (v / c)) (data a)\<rparr>"

definition rsub_scalar :: "rat \<Rightarrow> f32 ndarray \<Rightarrow> f32 ndarray" where
  "rsub_scalar c t = \<lparr>shape = shape t, data = map (\<lambda>v. f32_round (c - v)) (data t)\<rparr>"

definition from_numpy :: "f32 ndarray \<Rightarrow> f32 ndarray" where
  "from_numpy a = a"

text \<open>\<^verbatim>\<open>t[None,]\<close> and \<^verbatim>\<open>t.unsqueeze(0)\<close> put a dimension of size 1 in front.\<close>

definition index_None :: "'a ndarray \<Rightarrow> 'a ndarray" where
  "index_None t = \<lparr>shape = 1 # shape t, data = data t\<rparr>"

definition unsqueeze0 :: "'a ndarray \<Rightarrow> 'a ndarray" where
  "unsqueeze0 t = \<lparr>shape = 1 # shape t, data = data t\<rparr>"

definition torch_zeros :: "nat list \<Rightarrow> f32 ndarray" where
  "torch_zeros sh = \<lparr>shape = sh, data = replicate (prod_list sh) 0\<rparr>"

text \<open>
  \<^verbatim>\<open>torch.cat(ts, dim=0)\<close>: the list must not be empty, no tensor may be zero-dimensional
  and all must agree on every dimension but the first; otherwise torch raises
  \<^verbatim>\<open>RuntimeError\<close>. (Torch also lets a one-dimensional empty tensor through; the tensors
  built here have three or four dimensions.)
\<close>

definition torch_cat :: "'a ndarray list \<Rightarrow> error + 'a ndarray" where
  "torch_cat ts =
     (case ts of
        [] \<Rightarrow> Inl RuntimeError
      | t # _ \<Rightarrow>
          if list_all (\<lambda>u. shape u \<noteq> [] \<and> tl (shape u) = tl (shape t)) ts
          then Inr \<lparr>shape = sum_list (map (\<lambda>u. hd (shape u)) ts) # tl (shape t),
                    data = concat (map data ts)\<rparr>
          else Inl RuntimeError)"

text \<open>\<^verbatim>\<open>t[k]\<close>: the \<open>k\<close>-th slice along the first dimension.\<close>

definition select0 :: "'a ndarray \<Rightarrow> nat \<Rightarrow> 'a ndarray" where
  "select0 t k =
     (let n = prod_list (tl (shape t))
      in \<lparr>shape = tl (shape t), data = take n (drop (k * n) (data t))\<rparr>)"

section \<open>The image loader (lines 143 to 178)\<close>

text \<open>
  A PIL image, as far as \<^verbatim>\<open>load_image\<close> looks at it: the names of its bands
  (\<^verbatim>\<open>getbands()\<close>), its size, the pixel at column \<open>x\<close> and row \<open>y\<close> of
  \<^verbatim>\<open>convert("RGB")\<close>, and the sample there of \<^verbatim>\<open>getchannel('A')\<close> (read only when the
  image has a band \<^verbatim>\<open>'A'\<close>). Both are 8-bit in PIL.
\<close>

record pil_image =
  bands :: "string list"
  width :: nat
  height :: nat
  rgb_pixel :: "nat \<Rightarrow> nat \<Rightarrow> u8 \<times> u8 \<times> u8"
  alpha_pixel :: "nat \<Rightarrow> nat \<Rightarrow> u8"

text \<open>\<^verbatim>\<open>np.array(i.convert("RGB"))\<close> has shape (height, width, 3).\<close>

definition np_array_RGB :: "pil_image \<Rightarrow> u8 ndarray" where
  "np_array_RGB i =
     \<lparr>shape = [height i, width i, 3],
      data = concat (map (\<lambda>y. concat (map (\<lambda>x. case rgb_pixel i x y of (r, g, b) \<Rightarrow> [r, g, b])
                                            [0..<width i]))
                         [0..<height i])\<rparr>"

text \<open>\<^verbatim>\<open>np.array(i.getchannel('A'))\<close> has shape (height, width).\<close>

definition np_array_A :: "pil_image \<Rightarrow> u8 ndarray" where
  "np_array_A i =
     \<lparr>shape = [height i, width i],
      data = concat (map (\<lambda>y. map (\<lambda>x. alpha_pixel i x y) [0..<width i]) [0..<height i])\<rparr>"

text \<open>
  What the loader takes from outside the module: the host's base directory
  (\<^verbatim>\<open>folder_paths.base_path\<close>), the path functions of \<^verbatim>\<open>os.path\<close>, the file system
  (\<^verbatim>\<open>os.path.exists\<close>; \<^verbatim>\<open>Image.open\<close> with \<^verbatim>\<open>ImageSequence.Iterator\<close>, which gives
  the frames of the file in file order, or \<open>None\<close> when PIL raises) and
  \<^verbatim>\<open>ImageOps.exif_transpose\<close>. The file system does not change during a call.
\<close>

record host =
  base_path :: string
  isabs :: "string \<Rightarrow> bool"
  join :: "string \<Rightarrow> string \<Rightarrow> string"
  path_exists :: "string \<Rightarrow> bool"
  Image_open :: "string \<Rightarrow> pil_image list option"
  exif_transpose :: "pil_image \<Rightarrow> pil_image"

text \<open>Lines 144 to 147.\<close>

definition resolve_path :: "host \<Rightarrow> string \<Rightarrow> string" where
  "resolve_path h image_path =
     (if \<not> isabs h image_path then join h (base_path h) image_path else image_path)"

text \<open>Lines 157 to 159: the frame as a float32 array of shape (height, width, 3).\<close>

definition frame_rgb :: "host \<Rightarrow> pil_image \<Rightarrow> f32 ndarray" where
  "frame_rgb h i0 =
     (let i = exif_transpose h i0;
          image = np_array_RGB i
      in div_scalar (astype_float32 image) 255)"

text \<open>Line 160.\<close>

definition frame_image :: "host \<Rightarrow> pil_image \<Rightarrow> f32 ndarray" where
  "frame_image h i0 = index_None (from_numpy (frame_rgb h i0))"

text \<open>Lines 162 to 166: the mask of a frame.\<close>

definition frame_mask :: "host \<Rightarrow> pil_image \<Rightarrow> f32 ndarray" where
  "frame_mask h i0 =
     (let i = exif_transpose h i0
      in if ''A'' \<in> set (bands i)
         then (let mask = div_scalar (astype_float32 (np_array_A i)) 255
               in rsub_scalar 1 (from_numpy mask))
         else torch_zeros [64, 64])"

text \<open>The loop of lines 156 to 169, with the two lists it appends to.\<close>

fun frames_loop ::
  "host \<Rightarrow> pil_image list \<Rightarrow> f32 ndarray list \<Rightarrow> f32 ndarray list
     \<Rightarrow> f32 ndarray list \<times> f32 ndarray list" where
  "frames_loop h [] output_images output_masks = (output_images, output_masks)"
| "frames_loop h (i # rest) output_images output_masks =
     frames_loop h rest (output_images @ [frame_image h i])
       (output_masks @ [unsqueeze0 (frame_mask h i)])"

text \<open>Lines 171 to 178.\<close>

definition stack_outputs ::
  "f32 ndarray list \<times> f32 ndarray list \<Rightarrow> error + (f32 ndarray \<times> f32 ndarray)" where
  "stack_outputs outputs =
     (case outputs of (output_images, output_masks) \<Rightarrow>
        if length output_images > 1
        then (case torch_cat output_images of
                Inl e \<Rightarrow> Inl e
              | Inr output_image \<Rightarrow>
                  (case torch_cat output_masks of
                     Inl e \<Rightarrow> Inl e
                   | Inr output_mask \<Rightarrow> Inr (output_image, output_mask)))
        else (case output_images of
                [] \<Rightarrow> Inl IndexError
              | output_image # _ \<Rightarrow>
                  (case output_masks of
                     [] \<Rightarrow> Inl IndexError
                   | output_mask # _ \<Rightarrow> Inr (output_image, output_mask))))"

definition load_image :: "host \<Rightarrow> string \<Rightarrow> (f32 ndarray \<times> f32 ndarray) outcome" where
  "load_image h image_path0 =
     (let image_path = resolve_path h image_path0
      in if \<not> path_exists h image_path
         then ([Call_exists image_path],
               Inl (FileNotFoundError (''Image not found at path: '' @ image_path)))
         else (case Image_open h image_path of
                 None \<Rightarrow> ([Call_exists image_path, Call_open image_path], Inl DecodeFailure)
               | Some frames \<Rightarrow>
                   ([Call_exists image_path, Call_open image_path],
                    stack_outputs (frames_loop h frames [] []))))"

text \<open>
  The loader as step 6 of the specification words it, without the exception for one
  frame: "stack all frames' images into one tensor and all masks into one tensor, in
  iteration order". Everything before the stacking is as in \<open>load_image\<close>.
\<close>

definition stack_always ::
  "f32 ndarray list \<times> f32 ndarray list \<Rightarrow> error + (f32 ndarray \<times> f32 ndarray)" where
  "stack_always outputs =
     (case outputs of (output_images, output_masks) \<Rightarrow>
        (case torch_cat output_images of
           Inl e \<Rightarrow> Inl e
         | Inr output_image \<Rightarrow>
             (case torch_cat output_masks of
                Inl e \<Rightarrow> Inl e
              | Inr output_mask \<Rightarrow> Inr (output_image, output_mask))))"

definition load_image_always_stack ::
  "host \<Rightarrow> string \<Rightarrow> (f32 ndarray \<times> f32 ndarray) outcome" where
  "load_image_always_stack h image_path0 =
     (let image_path = resolve_path h image_path0
      in if \<not> path_exists h image_path
         then ([Call_exists image_path],
               Inl (FileNotFoundError (''Image not found at path: '' @ image_path)))
         else (case Image_open h image_path of
                 None \<Rightarrow> ([Call_exists image_path, Call_open image_path], Inl DecodeFailure)
               | Some frames \<Rightarrow>
                   ([Call_exists image_path, Call_open image_path],
                    stack_always (frames_loop h frames [] []))))"

subsection \<open>A concrete host\<close>

text \<open>
  \<^verbatim>\<open>os.path\<close> on POSIX: a path is absolute when it starts with a slash, and joining puts
  one slash between the parts unless the first is empty or ends with one.
\<close>

definition posix_isabs :: "string \<Rightarrow> bool" where
  "posix_isabs s = (take 1 s = ''/'')"

definition posix_join :: "string \<Rightarrow> string \<Rightarrow> string" where
  "posix_join a b =
     (if take 1 b = ''/'' then b
      else if a = [] \<or> last a = CHR ''/'' then a @ b
      else a @ ''/'' @ b)"

text \<open>
  Two small frames: an opaque RGB frame of two columns and one row, and an RGBA frame of
  the same size whose alpha samples are 255 and 0. The host below has the base directory
  \<^verbatim>\<open>/comfy\<close> and four files: one with the opaque frame, one with the RGBA frame, one
  with the RGBA frame twice, one with the opaque frame followed by the RGBA frame.
\<close>

definition opaque_frame :: pil_image where
  "opaque_frame =
     \<lparr>bands = [''R'', ''G'', ''B''], width = 2, height = 1,
      rgb_pixel = (\<lambda>x y. if x = 0 then (255, 0, 51) else (0, 255, 0)),
      alpha_pixel = (\<lambda>x y. 255)\<rparr>"

definition rgba_frame :: pil_image where
  "rgba_frame =
     \<lparr>bands = [''R'', ''G'', ''B'', ''A''], width = 2, height = 1,
      rgb_pixel = (\<lambda>x y. if x = 0 then (0, 0, 255) else (51, 51, 51)),
      alpha_pixel = (\<lambda>x y. if x = 0 then 255 else 0)\<rparr>"

definition demo_files :: "string \<Rightarrow> pil_image list option" where
  "demo_files p =
     (if p = ''/comfy/input/opaque.png'' then Some [opaque_frame]
      else if p = ''/comfy/input/rgba.png'' then Some [rgba_frame]
      else if p = ''/comfy/input/two.tiff'' then Some [rgba_frame, rgba_frame]
      else if p = ''/comfy/input/mixed.tiff'' then Some [opaque_frame, rgba_frame]
      else None)"

definition demo_host :: host where
  "demo_host =
     \<lparr>base_path = ''/comfy'', isabs = posix_isabs, join = posix_join,
      path_exists = (\<lambda>p. demo_files p \<noteq> None),
      Image_open = demo_files,
      exif_transpose = (\<lambda>i. i)\<rparr>"

text \<open>
  Another file system for the same host: under the name \<^verbatim>\<open>input/rgba.png\<close>, relative to
  the working directory, lies a file with the opaque frame; the file below the base
  directory is as before.
\<close>

definition cwd_files :: "string \<Rightarrow> pil_image list option" where
  "cwd_files p =
     (if p = ''/comfy/input/rgba.png'' then Some [rgba_frame]
      else if p = ''input/rgba.png'' then Some [opaque_frame]
      else None)"

text \<open>
  What the loader returns for the second and the third file: the samples 0, 51 and 255
  become 0, the float32 nearest to one fifth, and 1; the mask is 1 minus alpha.
\<close>

definition rgba_image :: "f32 ndarray" where
  "rgba_image =
     \<lparr>shape = [1, 1, 2, 3],
      data = [0, 0, 1, 13421773 / 67108864, 13421773 / 67108864, 13421773 / 67108864]\<rparr>"

definition rgba_mask :: "f32 ndarray" where
  "rgba_mask = \<lparr>shape = [1, 1, 2], data = [0, 1]\<rparr>"

definition two_image :: "f32 ndarray" where
  "two_image =
     \<lparr>shape = [2, 1, 2, 3],
      data = [0, 0, 1, 13421773 / 67108864, 13421773 / 67108864, 13421773 / 67108864,
              0, 0, 1, 13421773 / 67108864, 13421773 / 67108864, 13421773 / 67108864]\<rparr>"

definition two_mask :: "f32 ndarray" where
  "two_mask = \<lparr>shape = [2, 1, 2], data = [0, 1, 0, 1]\<rparr>"

section \<open>Rounding to float32\<close>

text \<open>
  Rounding to nearest moves a number by at most half a unit, and never past an integer
  bound. On the unit interval the exponent is at most 0, so a rounded number stays in
  the interval and moves by at most \<open>1 / 2 ^ 24\<close>.
\<close>

lemma rhe_lower: "q - 1 / 2 \<le> of_int (round_half_even q)"
  unfolding round_half_even_def Let_def by (auto; linarith)

lemma rhe_upper: "of_int (round_half_even q) \<le> q + 1 / 2"
  unfolding round_half_even_def Let_def by (auto; linarith)

lemma rhe_nonneg: "0 \<le> q \<Longrightarrow> 0 \<le> round_half_even q"
  unfolding round_half_even_def Let_def by (auto; linarith)

lemma rhe_le_int: "q \<le> of_int m \<Longrightarrow> round_half_even q \<le> m"
  unfolding round_half_even_def Let_def
  by (auto simp: floor_le_iff; linarith)

lemma ilog2_unit: assumes "0 < q" "q \<le> 1" shows "ilog2 q \<le> 0"
proof -
  obtain a b where ab: "quotient_of q = (a, b)" by (cases "quotient_of q")
  have b: "0 < b" using ab quotient_of_denom_pos by blast
  have q: "q = of_int a / of_int b" using ab quotient_of_div by blast
  have "a \<le> b" using assms(2) b unfolding q by (simp add: pos_divide_le_eq)
  then have "bitlen a \<le> bitlen b"
    unfolding bitlen_def by (simp add: floorlog_mono nat_mono)
  then show ?thesis unfolding ilog2_def ab by (simp add: Let_def)
qed

lemma f32_round_pos:
  assumes "0 < q"
  shows "f32_round q =
    of_int (round_half_even (q / 2 powi (max (ilog2 q) (- 126) - 23))) * 2 powi (max (ilog2 q) (- 126) - 23)"
  using assms by (simp add: f32_round_def Let_def)

lemma f32_round_unit:
  assumes "0 \<le> q" "q \<le> 1"
  shows "0 \<le> f32_round q \<and> f32_round q \<le> 1"
proof (cases "q = 0")
  case True
  then show ?thesis by (simp add: f32_round_def)
next
  case False
  then have pos: "0 < q" using assms(1) by simp
  define e where "e = max (ilog2 q) (- 126)"
  define ulp :: rat where "ulp = 2 powi (e - 23)"
  define M :: int where "M = 2 ^ nat (23 - e)"
  have e: "e \<le> 0" using ilog2_unit [OF pos assms(2)] by (simp add: e_def)
  have ulp_pos: "0 < ulp" by (simp add: ulp_def)
  have neg: "e - 23 < 0" using e by simp
  have ulp_eq: "ulp = inverse 2 ^ nat (23 - e)"
    using neg by (simp add: ulp_def power_int_def)
  have inv: "of_int M * ulp = 1"
    unfolding ulp_eq M_def by (simp add: power_mult_distrib [symmetric])
  have fr: "f32_round q = of_int (round_half_even (q / ulp)) * ulp"
    using f32_round_pos [OF pos] by (simp add: ulp_def e_def)
  have "q / ulp \<le> 1 / ulp"
    using assms(2) ulp_pos by (simp add: divide_right_mono)
  also have "1 / ulp = of_int M"
    using inv ulp_pos by (simp add: field_simps)
  finally have "q / ulp \<le> of_int M" .
  then have "round_half_even (q / ulp) \<le> M" by (rule rhe_le_int)
  then have "of_int (round_half_even (q / ulp)) * ulp \<le> of_int M * ulp"
    using ulp_pos by (simp add: mult_right_mono)
  moreover have "0 \<le> round_half_even (q / ulp)"
    using pos ulp_pos by (intro rhe_nonneg) simp
  ultimately show ?thesis using fr inv ulp_pos by simp
qed


lemma f32_round_error:
  assumes "0 \<le> q" "q \<le> 1"
  shows "\<bar>f32_round q - q\<bar> \<le> 1 / 2 ^ 24"
proof (cases "q = 0")
  case True
  then show ?thesis by (simp add: f32_round_def)
next
  case False
  then have pos: "0 < q" using assms(1) by simp
  define e where "e = max (ilog2 q) (- 126)"
  define ulp :: rat where "ulp = 2 powi (e - 23)"
  define r :: rat where "r = of_int (round_half_even (q / ulp))"
  have e: "e \<le> 0" using ilog2_unit [OF pos assms(2)] by (simp add: e_def)
  have ulp_pos: "0 < ulp" by (simp add: ulp_def)
  have "ulp \<le> 2 powi (- 23)"
    unfolding ulp_def using e by (intro power_int_increasing) simp_all
  then have ulp_le: "ulp \<le> 1 / 2 ^ 23"
    by (simp add: power_int_minus_divide)
  have fr: "f32_round q = r * ulp"
    using f32_round_pos [OF pos] by (simp add: ulp_def e_def r_def)
  have "\<bar>r - q / ulp\<bar> \<le> 1 / 2"
    using rhe_lower [of "q / ulp"] rhe_upper [of "q / ulp"] unfolding r_def by linarith
  then have "\<bar>r - q / ulp\<bar> * ulp \<le> 1 / 2 * ulp"
    using ulp_pos by (simp add: mult_right_mono)
  moreover have "\<bar>r - q / ulp\<bar> * ulp = \<bar>r * ulp - q\<bar>"
  proof -
    have "\<bar>r - q / ulp\<bar> * ulp = \<bar>r - q / ulp\<bar> * \<bar>ulp\<bar>"
      using ulp_pos by simp
    also have "\<dots> = \<bar>(r - q / ulp) * ulp\<bar>" by (simp only: abs_mult)
    also have "(r - q / ulp) * ulp = r * ulp - q"
      using ulp_pos by (simp add: left_diff_distrib)
    finally show ?thesis .
  qed
  ultimately have "\<bar>r * ulp - q\<bar> \<le> 1 / 2 * ulp" by simp
  also have "\<dots> \<le> 1 / 2 * (1 / 2 ^ 23)" using ulp_le by simp
  finally show ?thesis by (simp add: fr)
qed

text \<open>
  \<open>ilog2\<close> is the binary exponent, so in the normal range \<open>f32_round\<close> returns a
  significand of 24 bits times a power of two, within half a unit in the last place.
\<close>

lemma bitlen_powi:
  assumes "0 < a"
  shows "(2::rat) powi (bitlen a - 1) \<le> of_int a" "of_int a < (2::rat) powi (bitlen a)"
proof -
  have b: "2 ^ nat (bitlen a - 1) \<le> a" "a < 2 ^ nat (bitlen a)"
    using bitlen_bounds [OF assms] by simp_all
  have ge: "1 \<le> bitlen a" using assms bitlen_eq_zero_iff [of a] bitlen_nonneg [of a] by linarith
  have "(2::rat) powi (bitlen a - 1) = 2 ^ nat (bitlen a - 1)"
    using ge by (simp add: power_int_def)
  also have "\<dots> = of_int (2 ^ nat (bitlen a - 1))" by simp
  also have "\<dots> \<le> of_int a" using b(1) by (simp only: of_int_le_iff)
  finally show "(2::rat) powi (bitlen a - 1) \<le> of_int a" .
  have "(of_int a :: rat) < of_int (2 ^ nat (bitlen a))" using b(2) by (simp only: of_int_less_iff)
  also have "\<dots> = 2 ^ nat (bitlen a)" by simp
  also have "\<dots> = 2 powi (bitlen a)" using ge by (simp add: power_int_def)
  finally show "of_int a < (2::rat) powi (bitlen a)" .
qed

lemma ilog2_bounds:
  assumes "0 < q"
  shows "2 powi (ilog2 q) \<le> q \<and> q < 2 powi (ilog2 q + 1)"
proof -
  obtain a b where ab: "quotient_of q = (a, b)" by (cases "quotient_of q")
  have b: "0 < b" using ab quotient_of_denom_pos by blast
  have q: "q = of_int a / of_int b" using ab quotient_of_div by blast
  have a: "0 < a" using assms b unfolding q by (simp add: zero_less_divide_iff)
  define d where "d = bitlen a - bitlen b"
  note A = bitlen_powi [OF a] and B = bitlen_powi [OF b]
  have bpos: "(0::rat) < of_int b" using b by simp
  have "q < 2 powi (bitlen a) / of_int b"
    unfolding q using A(2) bpos by (simp add: divide_strict_right_mono)
  also have "\<dots> \<le> 2 powi (bitlen a) / 2 powi (bitlen b - 1)"
    using B(1) b by (intro divide_left_mono) (simp_all add: zero_less_mult_iff)
  also have "\<dots> = 2 powi (d + 1)"
    by (simp add: d_def power_int_diff [symmetric] algebra_simps)
  finally have up: "q < 2 powi (d + 1)" .
  have "2 powi (d - 1) = 2 powi (bitlen a - 1) / (2::rat) powi (bitlen b)"
    by (simp add: d_def power_int_diff [symmetric] algebra_simps)
  also have "\<dots> \<le> of_int a / 2 powi (bitlen b)"
    using A(1) by (simp add: divide_right_mono)
  also have "\<dots> \<le> of_int a / of_int b"
    using B(2) a b by (intro divide_left_mono) (simp_all add: zero_less_mult_iff)
  finally have lo: "2 powi (d - 1) \<le> q" unfolding q .
  show ?thesis
    using up lo unfolding ilog2_def ab by (simp add: Let_def d_def [symmetric])
qed

lemma f32_round_significand:
  assumes "0 < q" "- 126 \<le> ilog2 q"
  shows "\<exists>n. f32_round q = of_int n * 2 powi (ilog2 q - 23) \<and> 2 ^ 23 \<le> n \<and> n \<le> 2 ^ 24 \<and>
     \<bar>of_int n * 2 powi (ilog2 q - 23) - q\<bar> \<le> 2 powi (ilog2 q - 23) / 2"
proof -
  define e where "e = ilog2 q"
  define ulp :: rat where "ulp = 2 powi (e - 23)"
  define n where "n = round_half_even (q / ulp)"
  have ulp_pos: "0 < ulp" by (simp add: ulp_def)
  have fr: "f32_round q = of_int n * ulp"
    using f32_round_pos [OF assms(1)] assms(2) by (simp add: n_def ulp_def e_def max_def)
  have "2 powi e \<le> q" "q < 2 powi (e + 1)" using ilog2_bounds [OF assms(1)] by (simp_all add: e_def)
  then have "2 powi e / ulp \<le> q / ulp" "q / ulp < 2 powi (e + 1) / ulp"
    using ulp_pos by (simp_all add: divide_right_mono divide_strict_right_mono)
  moreover have "2 powi e / ulp = 2 ^ 23" "2 powi (e + 1) / ulp = 2 ^ 24"
    unfolding ulp_def by (simp_all add: power_int_diff [symmetric])
  ultimately have x: "(2::rat) ^ 23 \<le> q / ulp" "q / ulp < 2 ^ 24" by simp_all
  have "of_int (2 ^ 23) - 1 / 2 \<le> (of_int n :: rat)"
    using rhe_lower [of "q / ulp"] x(1) by (simp add: n_def)
  then have lo: "2 ^ 23 \<le> n" by linarith
  have "q / ulp \<le> of_int (2 ^ 24)" using x(2) by simp
  then have hi: "n \<le> 2 ^ 24" unfolding n_def by (rule rhe_le_int)
  have "\<bar>of_int n - q / ulp\<bar> \<le> 1 / 2"
    using rhe_lower [of "q / ulp"] rhe_upper [of "q / ulp"] unfolding n_def by linarith
  then have "\<bar>of_int n - q / ulp\<bar> * ulp \<le> 1 / 2 * ulp"
    using ulp_pos by (simp add: mult_right_mono)
  moreover have "\<bar>of_int n - q / ulp\<bar> * ulp = \<bar>of_int n * ulp - q\<bar>"
  proof -
    have "\<bar>of_int n - q / ulp\<bar> * ulp = \<bar>of_int n - q / ulp\<bar> * \<bar>ulp\<bar>"
      using ulp_pos by simp
    also have "\<dots> = \<bar>(of_int n - q / ulp) * ulp\<bar>" by (simp only: abs_mult)
    also have "(of_int n - q / ulp) * ulp = of_int n * ulp - q"
      using ulp_pos by (simp add: left_diff_distrib)
    finally show ?thesis .
  qed
  ultimately have "\<bar>of_int n * ulp - q\<bar> \<le> ulp / 2" by simp
  then show ?thesis using fr lo hi unfolding ulp_def e_def by blast
qed

text \<open>A byte divided by 255 lies in the unit interval, and so does 1 minus its rounding.\<close>

lemma nat_byte_unit:
  "n \<le> 255 \<Longrightarrow> 0 \<le> (of_nat n / 255 :: rat) \<and> (of_nat n / 255 :: rat) \<le> 1"
  by simp

lemma unat_byte: "unat (a :: u8) \<le> 255"
proof -
  have "unat a < 2 ^ 8" using unsigned_less [of a] by simp
  then show ?thesis by simp
qed

lemma byte_unit:
  "0 \<le> (of_nat (unat (a :: u8)) / 255 :: rat) \<and> (of_nat (unat a) / 255 :: rat) \<le> 1"
  using unat_byte [of a] by (rule nat_byte_unit)

lemma mask_sample:
  fixes a :: u8
  defines "m \<equiv> f32_round (1 - f32_round (of_nat (unat a) / 255))"
  shows "0 \<le> m" "m \<le> 1" "\<bar>m - (1 - of_nat (unat a) / 255)\<bar> \<le> 1 / 2 ^ 23"
proof -
  let ?q = "of_nat (unat a) / 255 :: rat"
  let ?n = "f32_round ?q"
  have q: "0 \<le> ?q" "?q \<le> 1" using byte_unit [of a] by simp_all
  have n: "0 \<le> ?n" "?n \<le> 1" using f32_round_unit [OF q] by simp_all
  have n': "0 \<le> 1 - ?n" "1 - ?n \<le> 1" using n by simp_all
  show "0 \<le> m" "m \<le> 1" using f32_round_unit [OF n'] by (simp_all add: m_def)
  have e1: "\<bar>?n - ?q\<bar> \<le> 1 / 2 ^ 24" using f32_round_error [OF q] .
  have e2: "\<bar>m - (1 - ?n)\<bar> \<le> 1 / 2 ^ 24" using f32_round_error [OF n'] by (simp add: m_def)
  have "\<bar>m - (1 - ?q)\<bar> \<le> \<bar>m - (1 - ?n)\<bar> + \<bar>?n - ?q\<bar>" by linarith
  also have "\<dots> \<le> 1 / 2 ^ 24 + 1 / 2 ^ 24" using e1 e2 by linarith
  finally show "\<bar>m - (1 - ?q)\<bar> \<le> 1 / 2 ^ 23" by simp
qed

text \<open>Three roundings by evaluation.\<close>

lemma f32_round_0: "f32_round 0 = 0"
  by (simp add: f32_round_def)

lemma f32_round_1: "f32_round 1 = 1"
  by code_simp

lemma f32_round_fifth: "f32_round (1 / 5) = 13421773 / 67108864"
  by code_simp

section \<open>Arrays built by the loop\<close>

lemma unsqueeze0_index_None: "unsqueeze0 t = index_None t"
  by (simp add: unsqueeze0_def index_None_def)

lemma frames_loop_map:
  "frames_loop h frames output_images output_masks =
     (output_images @ map (frame_image h) frames,
      output_masks @ map (\<lambda>i. unsqueeze0 (frame_mask h i)) frames)"
  by (induction frames arbitrary: output_images output_masks) simp_all

lemma length_concat_const:
  "(\<And>xs. xs \<in> set xss \<Longrightarrow> length xs = n) \<Longrightarrow> length (concat xss) = length xss * n"
  by (induction xss) simp_all

lemma concat_block:
  assumes "\<And>xs. xs \<in> set xss \<Longrightarrow> length xs = n" "k < length xss"
  shows "take n (drop (k * n) (concat xss)) = xss ! k"
  using assms
proof (induction xss arbitrary: k)
  case Nil
  then show ?case by simp
next
  case (Cons xs xss)
  have len: "length xs = n" using Cons.prems(1) by simp
  show ?case
  proof (cases k)
    case 0
    then show ?thesis using len by simp
  next
    case (Suc j)
    have "take n (drop (j * n) (concat xss)) = xss ! j"
      using Cons.prems Suc by (intro Cons.IH) simp_all
    then show ?thesis using Suc len by simp
  qed
qed

lemma np_array_RGB_length: "length (data (np_array_RGB i)) = height i * width i * 3"
proof -
  have row: "\<And>y. length (concat (map (\<lambda>x. case rgb_pixel i x y of (r, g, b) \<Rightarrow> [r, g, b]) [0..<width i])) = width i * 3"
    by (subst length_concat_const [where n = 3]) (auto split: prod.splits)
  show ?thesis
    unfolding np_array_RGB_def
    by (simp, subst length_concat_const [where n = "width i * 3"]) (auto simp: row)
qed

lemma np_array_A_length: "length (data (np_array_A i)) = height i * width i"
  unfolding np_array_A_def
  by (simp, subst length_concat_const [where n = "width i"]) auto

lemma frame_rgb_shape: "shape (frame_rgb h i0) = [height (exif_transpose h i0), width (exif_transpose h i0), 3]"
  by (simp add: frame_rgb_def Let_def div_scalar_def astype_float32_def np_array_RGB_def)

lemma frame_rgb_wf: "wf_array (frame_rgb h i0)"
  by (simp add: wf_array_def frame_rgb_def Let_def div_scalar_def astype_float32_def
      np_array_RGB_length) (simp add: np_array_RGB_def)

lemma frame_mask_wf: "wf_array (frame_mask h i0)"
  by (simp add: wf_array_def frame_mask_def Let_def div_scalar_def astype_float32_def
      rsub_scalar_def from_numpy_def torch_zeros_def np_array_A_length)
     (simp add: np_array_A_def)

lemma frame_image_shape: "shape (frame_image h i0) = [1, height (exif_transpose h i0), width (exif_transpose h i0), 3]"
  by (simp add: frame_image_def index_None_def from_numpy_def frame_rgb_shape)

lemma select0_index_None: "wf_array t \<Longrightarrow> select0 (index_None t) 0 = t"
  by (simp add: select0_def index_None_def wf_array_def)

lemma sum_list_ones: "sum_list (map (\<lambda>u. hd (shape (index_None u))) ts) = length ts"
  by (induction ts) (simp_all add: index_None_def)

lemma torch_cat_index_None:
  assumes cat: "torch_cat (map index_None ts) = Inr r"
  shows "ts \<noteq> []"
    and "shape r = length ts # shape (hd ts)"
    and "data r = concat (map data ts)"
    and "\<And>t. t \<in> set ts \<Longrightarrow> shape t = shape (hd ts)"
proof -
  show ne: "ts \<noteq> []" using cat by (auto simp: torch_cat_def)
  then obtain t rest where ts: "ts = t # rest" by (cases ts) auto
  have ok: "list_all (\<lambda>u. shape u \<noteq> [] \<and> tl (shape u) = tl (shape (index_None t))) (map index_None ts)"
    using cat unfolding ts torch_cat_def by (simp split: if_splits)
  have r: "r = \<lparr>shape = sum_list (map (\<lambda>u. hd (shape u)) (map index_None ts)) # tl (shape (index_None t)),
                 data = concat (map data (map index_None ts))\<rparr>"
    using cat unfolding ts torch_cat_def by (simp split: if_splits)
  show "shape r = length ts # shape (hd ts)"
    unfolding r using sum_list_ones [of ts] by (simp add: ts index_None_def comp_def)
  show "data r = concat (map data ts)"
    unfolding r by (simp add: index_None_def comp_def)
  show "\<And>u. u \<in> set ts \<Longrightarrow> shape u = shape (hd ts)"
    using ok by (auto simp: list_all_iff index_None_def ts)
qed

lemma torch_cat_select0:
  assumes cat: "torch_cat (map index_None ts) = Inr r"
    and wf: "\<And>t. t \<in> set ts \<Longrightarrow> wf_array t"
    and k: "k < length ts"
  shows "select0 r k = ts ! k"
proof -
  note facts = torch_cat_index_None [OF cat]
  define n where "n = prod_list (shape (hd ts))"
  have len: "\<And>xs. xs \<in> set (map data ts) \<Longrightarrow> length xs = n"
    using wf facts(4) by (auto simp: wf_array_def n_def)
  have "take n (drop (k * n) (concat (map data ts))) = map data ts ! k"
    using len k by (intro concat_block) simp_all
  then have d: "take n (drop (k * n) (data r)) = data (ts ! k)"
    using k by (simp add: facts(3))
  have s: "shape (ts ! k) = shape (hd ts)" using facts(4) k by simp
  have "select0 r k = \<lparr>shape = shape (hd ts), data = take n (drop (k * n) (data r))\<rparr>"
    by (simp add: select0_def facts(2) n_def Let_def)
  also have "\<dots> = ts ! k" by (simp add: d s [symmetric])
  finally show ?thesis .
qed

lemma torch_cat_singleton:
  "shape t \<noteq> [] \<Longrightarrow> torch_cat [t] = Inr t"
  by (simp add: torch_cat_def)

lemma stack_outputs_slices:
  assumes st: "stack_outputs (frames_loop h frames [] []) = Inr (img, msk)"
  shows "frames \<noteq> []"
    and "shape img = length frames # shape (frame_rgb h (hd frames))"
    and "shape msk = length frames # shape (frame_mask h (hd frames))"
    and "data img = concat (map (\<lambda>i. data (frame_rgb h i)) frames)"
    and "data msk = concat (map (\<lambda>i. data (frame_mask h i)) frames)"
    and "\<And>k. k < length frames \<Longrightarrow> select0 img k = frame_rgb h (frames ! k)"
    and "\<And>k. k < length frames \<Longrightarrow> select0 msk k = frame_mask h (frames ! k)"
proof -
  let ?is = "map index_None (map (frame_rgb h) frames)"
  let ?ms = "map index_None (map (frame_mask h) frames)"
  have loop: "frames_loop h frames [] [] = (?is, ?ms)"
    by (simp add: frames_loop_map frame_image_def from_numpy_def unsqueeze0_index_None comp_def)
  show ne: "frames \<noteq> []"
    using st unfolding loop stack_outputs_def by (auto split: if_splits)
  have both: "(shape img = length frames # shape (frame_rgb h (hd frames)) \<and>
         data img = concat (map (\<lambda>i. data (frame_rgb h i)) frames) \<and>
         (\<forall>k < length frames. select0 img k = frame_rgb h (frames ! k))) \<and>
        (shape msk = length frames # shape (frame_mask h (hd frames)) \<and>
         data msk = concat (map (\<lambda>i. data (frame_mask h i)) frames) \<and>
         (\<forall>k < length frames. select0 msk k = frame_mask h (frames ! k)))"
  proof (cases "1 < length frames")
    case True
    then have ci: "torch_cat ?is = Inr img" and cm: "torch_cat ?ms = Inr msk"
      using st unfolding loop stack_outputs_def by (auto split: sum.splits)
    note fi = torch_cat_index_None [OF ci] and fm = torch_cat_index_None [OF cm]
    have si: "select0 img k = frame_rgb h (frames ! k)" if "k < length frames" for k
    proof -
      have "select0 img k = map (frame_rgb h) frames ! k"
        using that by (intro torch_cat_select0 [OF ci]) (auto simp: frame_rgb_wf)
      then show ?thesis using that by simp
    qed
    have sm: "select0 msk k = frame_mask h (frames ! k)" if "k < length frames" for k
    proof -
      have "select0 msk k = map (frame_mask h) frames ! k"
        using that by (intro torch_cat_select0 [OF cm]) (auto simp: frame_mask_wf)
      then show ?thesis using that by simp
    qed
    show ?thesis
      using fi(2,3) fm(2,3) si sm ne by (simp add: hd_map comp_def)
  next
    case False
    with ne obtain f where f: "frames = [f]" by (cases frames) auto
    have "img = index_None (frame_rgb h f)" "msk = index_None (frame_mask h f)"
      using st unfolding stack_outputs_def f
      by (auto simp: frame_image_def from_numpy_def unsqueeze0_index_None)
    then show ?thesis
      by (simp add: f select0_index_None frame_rgb_wf frame_mask_wf) (simp add: index_None_def)
  qed
  show "shape img = length frames # shape (frame_rgb h (hd frames))"
    and "shape msk = length frames # shape (frame_mask h (hd frames))"
    and "data img = concat (map (\<lambda>i. data (frame_rgb h i)) frames)"
    and "data msk = concat (map (\<lambda>i. data (frame_mask h i)) frames)"
    and "\<And>k. k < length frames \<Longrightarrow> select0 img k = frame_rgb h (frames ! k)"
    and "\<And>k. k < length frames \<Longrightarrow> select0 msk k = frame_mask h (frames ! k)"
    using both by simp_all
qed

lemma load_image_returns:
  assumes "load_image h p = (tr, Inr (img, msk))"
  shows "path_exists h (resolve_path h p)"
    and "\<exists>frames. Image_open h (resolve_path h p) = Some frames \<and>
           stack_outputs (frames_loop h frames [] []) = Inr (img, msk)"
    and "tr = [Call_exists (resolve_path h p), Call_open (resolve_path h p)]"
  using assms unfolding load_image_def Let_def
  by (auto split: if_splits option.splits)

lemma concat_nth_block:
  assumes "\<And>xs. xs \<in> set xss \<Longrightarrow> length xs = n" "k < length xss" "j < n"
  shows "concat xss ! (k * n + j) = xss ! k ! j"
proof -
  have len: "length (concat xss) = length xss * n"
    using assms(1) by (rule length_concat_const)
  have "k * n + n \<le> length xss * n"
    using assms(2) by (metis Suc_leI mult_Suc mult_le_mono1 add.commute)
  then have lt: "k * n + j < length (concat xss)" using assms(3) len by simp
  have "xss ! k ! j = take n (drop (k * n) (concat xss)) ! j"
    using concat_block [OF assms(1,2)] by simp
  also have "\<dots> = concat xss ! (k * n + j)"
    using assms(3) lt by simp
  finally show ?thesis by simp
qed

lemma np_array_A_nth:
  assumes "y < height i" "x < width i"
  shows "data (np_array_A i) ! (y * width i + x) = alpha_pixel i x y"
proof -
  let ?rows = "map (\<lambda>y. map (\<lambda>x. alpha_pixel i x y) [0..<width i]) [0..<height i]"
  have "concat ?rows ! (y * width i + x) = ?rows ! y ! x"
    using assms by (intro concat_nth_block) auto
  then show ?thesis using assms by (simp add: np_array_A_def)
qed

lemma frame_rgb_data:
  "v \<in> set (data (frame_rgb h i0)) \<Longrightarrow>
     \<exists>n. n \<le> 255 \<and> v = f32_round (of_nat n / 255)"
proof -
  assume "v \<in> set (data (frame_rgb h i0))"
  then obtain a :: u8 where "v = f32_round (of_nat (unat a) / 255)"
    by (auto simp: frame_rgb_def Let_def div_scalar_def astype_float32_def)
  then show ?thesis using unat_byte [of a] by blast
qed

lemma frame_image_nonscalar: "shape (frame_image h f) \<noteq> []"
  by (simp add: frame_image_shape)

lemma frame_mask_nonscalar: "shape (unsqueeze0 (frame_mask h f)) \<noteq> []"
  by (simp add: unsqueeze0_def)

section \<open>The concrete host, evaluated\<close>

lemma demo_transpose: "exif_transpose demo_host f = f"
  by (simp add: demo_host_def)

lemma demo_resolve:
  "resolve_path demo_host ''input/opaque.png'' = ''/comfy/input/opaque.png''"
  "resolve_path demo_host ''input/rgba.png'' = ''/comfy/input/rgba.png''"
  "resolve_path demo_host ''input/two.tiff'' = ''/comfy/input/two.tiff''"
  by (simp_all add: resolve_path_def demo_host_def posix_isabs_def posix_join_def)

lemma demo_open:
  "Image_open demo_host ''/comfy/input/opaque.png'' = Some [opaque_frame]"
  "Image_open demo_host ''/comfy/input/rgba.png'' = Some [rgba_frame]"
  "Image_open demo_host ''/comfy/input/two.tiff'' = Some [rgba_frame, rgba_frame]"
  by (simp_all add: demo_host_def demo_files_def)

lemma demo_exists:
  "path_exists demo_host ''/comfy/input/opaque.png''"
  "path_exists demo_host ''/comfy/input/rgba.png''"
  "path_exists demo_host ''/comfy/input/two.tiff''"
  by (simp_all add: demo_host_def demo_files_def)

lemma demo_frame_rgb:
  "frame_rgb demo_host rgba_frame =
     \<lparr>shape = [1, 2, 3],
      data = [0, 0, 1, 13421773 / 67108864, 13421773 / 67108864, 13421773 / 67108864]\<rparr>"
  by (simp add: frame_rgb_def demo_transpose div_scalar_def astype_float32_def
      np_array_RGB_def rgba_frame_def upt_rec f32_round_0 f32_round_1 f32_round_fifth)

lemma demo_frame_mask:
  "frame_mask demo_host rgba_frame = \<lparr>shape = [1, 2], data = [0, 1]\<rparr>"
  by (simp add: frame_mask_def demo_transpose div_scalar_def astype_float32_def
      rsub_scalar_def from_numpy_def
      np_array_A_def rgba_frame_def upt_rec f32_round_0 f32_round_1)

lemma demo_load_rgba:
  "load_image demo_host ''input/rgba.png'' =
     ([Call_exists ''/comfy/input/rgba.png'', Call_open ''/comfy/input/rgba.png''],
      Inr (rgba_image, rgba_mask))"
  by (simp add: load_image_def Let_def demo_resolve demo_open demo_exists stack_outputs_def
      frame_image_def from_numpy_def index_None_def unsqueeze0_def demo_frame_rgb
      demo_frame_mask rgba_image_def rgba_mask_def)

lemma demo_load_two:
  "load_image demo_host ''input/two.tiff'' =
     ([Call_exists ''/comfy/input/two.tiff'', Call_open ''/comfy/input/two.tiff''],
      Inr (two_image, two_mask))"
  by (simp add: load_image_def Let_def demo_resolve demo_open demo_exists stack_outputs_def
      torch_cat_def frame_image_def from_numpy_def index_None_def unsqueeze0_def
      demo_frame_rgb demo_frame_mask two_image_def two_mask_def)

text \<open>
  Frames of one file whose masks differ in size cannot be stacked: the opaque frame gets
  a mask of 64 by 64, the RGBA frame one of its own size, and \<^verbatim>\<open>torch.cat\<close> raises.
\<close>

lemma demo_load_mixed:
  "load_image demo_host ''input/mixed.tiff'' =
     ([Call_exists ''/comfy/input/mixed.tiff'', Call_open ''/comfy/input/mixed.tiff''],
      Inl RuntimeError)"
  by (simp add: load_image_def Let_def resolve_path_def demo_host_def posix_isabs_def
      posix_join_def demo_files_def stack_outputs_def torch_cat_def frame_image_def
      from_numpy_def index_None_def unsqueeze0_def frame_rgb_def frame_mask_def
      div_scalar_def astype_float32_def rsub_scalar_def np_array_RGB_def np_array_A_def
      torch_zeros_def opaque_frame_def rgba_frame_def)

section \<open>Parameter nodes, switch and marker\<close>

text \<open>
  C1. For each of the five scalar parameter nodes and every value, \<^verbatim>\<open>get_value\<close> returns
  the one-element tuple holding that value: it makes no file-system call and raises
  nothing.
\<close>

theorem get_value_returns_input:
  "ParamString_get_value v1 = ([], Inr [v1]) \<and>
   ParamInt_get_value v2 = ([], Inr [v2]) \<and>
   ParamFloat_get_value v3 = ([], Inr [v3]) \<and>
   ParamBoolean_get_value v4 = ([], Inr [v4]) \<and>
   ParamUniversal_get_value v5 = ([], Inr [v5])"
  by (simp add: ParamString_get_value_def ParamInt_get_value_def ParamFloat_get_value_def
      ParamBoolean_get_value_def ParamUniversal_get_value_def)

text \<open>
  C2. For all values \<open>a\<close> and \<open>b\<close>, \<^verbatim>\<open>switch(a, b, True)\<close> returns \<open>b\<close> and
  \<^verbatim>\<open>switch(a, b, False)\<close> returns \<open>a\<close>, with no file-system call and no exception.
\<close>

theorem switch_selects:
  "switch a b True = ([], Inr [b]) \<and> switch a b False = ([], Inr [a])"
  by (simp add: switch_def)

text \<open>
  C9, as the code has it. The marker \<open>any\<close> is the string \<^verbatim>\<open>"*"\<close> as an \<^verbatim>\<open>AnyType\<close>, and
  \<^verbatim>\<open>AnyType.__ne__\<close> returns \<^verbatim>\<open>False\<close> for every receiver and argument. So
  \<^verbatim>\<open>any != x\<close> is \<^verbatim>\<open>False\<close> for every \<open>x\<close> whose class is no proper subclass of
  \<^verbatim>\<open>AnyType\<close>, and for an instance of such a subclass whose \<^verbatim>\<open>__ne__\<close> answers
  \<^verbatim>\<open>NotImplemented\<close>; when that \<^verbatim>\<open>__ne__\<close> gives an answer, the answer is the result.
  Lookup on the marker takes from \<^verbatim>\<open>AnyType\<close> exactly \<^verbatim>\<open>__ne__\<close> and the names that
  class creation adds, and takes every other name from \<^verbatim>\<open>str\<close>.
\<close>

theorem AnyType_ne_False_unless_subclass:
  "AnyType_ne self y = False \<and>
   ne_operator any (Plain x) = False \<and>
   (reflected_ne any = None \<longrightarrow>
      ne_operator any (Subclass_instance reflected_ne) = False) \<and>
   (\<forall>answer. reflected_ne any = Some answer \<longrightarrow>
      ne_operator any (Subclass_instance reflected_ne) = answer) \<and>
   any = ''*'' \<and>
   (\<forall>name. defining_class implicit name = Class_AnyType
      \<longleftrightarrow> name = ''__ne__'' \<or> name \<in> set implicit) \<and>
   (\<forall>name. name \<noteq> ''__ne__'' \<and> name \<notin> set implicit \<longrightarrow>
      defining_class implicit name = Class_str)"
  by (auto simp: ne_operator_def AnyType_ne_def any_def defining_class_def
      AnyType_namespace_def AnyType_body_def)

text \<open>
  An instance: \<^verbatim>\<open>any != "INT"\<close> is \<^verbatim>\<open>False\<close> although the strings differ; so is
  \<^verbatim>\<open>any != Deferring("x")\<close>; \<^verbatim>\<open>any != Sub("x")\<close> is the answer of \<^verbatim>\<open>Sub.__ne__\<close>;
  \<^verbatim>\<open>__eq__\<close> is the method of \<^verbatim>\<open>str\<close> and \<^verbatim>\<open>__doc__\<close> is the attribute of
  \<^verbatim>\<open>AnyType\<close>.
\<close>

theorem AnyType_ne_False_unless_subclass_witness:
  "ne_operator any (Plain ''INT'') = False \<and>
   Deferring_ne any = None \<and>
   ne_operator any (Subclass_instance Deferring_ne :: string pyobj) = False \<and>
   Sub_ne any = Some True \<and>
   ne_operator any (Subclass_instance Sub_ne :: unit pyobj) = True \<and>
   ''__eq__'' \<noteq> ''__ne__'' \<and>
   ''__eq__'' \<notin> set cpython_implicit \<and>
   defining_class cpython_implicit ''__eq__'' = Class_str \<and>
   ''__doc__'' \<in> set cpython_implicit \<and>
   defining_class cpython_implicit ''__doc__'' = Class_AnyType"
proof -
  have d: "Deferring_ne any = None" and t: "Sub_ne any = Some True"
    by (simp_all add: Deferring_ne_def Sub_ne_def)
  have e: "''__eq__'' \<noteq> ''__ne__''" "''__eq__'' \<notin> set cpython_implicit"
    "''__doc__'' \<in> set cpython_implicit"
    by (simp_all add: cpython_implicit_def)
  note c1 = AnyType_ne_False_unless_subclass
      [of any "()" "''INT''" Deferring_ne cpython_implicit]
  note c2 = AnyType_ne_False_unless_subclass
      [of any "()" "()" Sub_ne cpython_implicit]
  have a1: "ne_operator any (Plain ''INT'') = False"
    using c1 [THEN conjunct2, THEN conjunct1] .
  have a2: "ne_operator any (Subclass_instance Deferring_ne :: string pyobj) = False"
    using c1 [THEN conjunct2, THEN conjunct2, THEN conjunct1, rule_format, OF d] .
  have a5: "ne_operator any (Subclass_instance Sub_ne :: unit pyobj) = True"
    using c2 [THEN conjunct2, THEN conjunct2, THEN conjunct2, THEN conjunct1, rule_format, OF t] .
  note names = c1 [THEN conjunct2, THEN conjunct2, THEN conjunct2, THEN conjunct2,
      THEN conjunct2]
  have a3: "defining_class cpython_implicit ''__eq__'' = Class_str"
    using names [THEN conjunct2, rule_format, of "''__eq__''"] e(1,2) by (simp only: simp_thms)
  have a4: "defining_class cpython_implicit ''__doc__'' = Class_AnyType"
    using names [THEN conjunct1, rule_format, of "''__doc__''"] e(3) by (simp only: simp_thms)
  show ?thesis
    by (intro conjI a1 a2 a3 a4 a5 d t e)
qed

text \<open>
  Worded for every object and with no other difference from a string, the statement
  fails twice: \<^verbatim>\<open>any != Sub("x")\<close> is \<^verbatim>\<open>True\<close>, and the marker's \<^verbatim>\<open>__doc__\<close> is not
  the one of \<^verbatim>\<open>str\<close>.
\<close>

theorem AnyType_marker_counterexample:
  "ne_operator any (sub_instance :: unit pyobj) \<noteq> False \<and>
   defining_class cpython_implicit ''__doc__'' \<noteq> Class_str"
  by (simp add: ne_operator_def sub_instance_def Sub_ne_def defining_class_def
      AnyType_namespace_def cpython_implicit_def)

section \<open>Path resolution and the missing file\<close>

text \<open>With the path functions of POSIX and an absolute base directory, the resolved
  path is absolute.\<close>

lemma posix_resolve_absolute:
  assumes "isabs h = posix_isabs" "join h = posix_join" "posix_isabs (base_path h)"
  shows "posix_isabs (resolve_path h p)"
proof -
  obtain c cs where b: "base_path h = c # cs"
    using assms(3) by (cases "base_path h") (auto simp: posix_isabs_def)
  then have "c = CHR ''/''" using assms(3) by (simp add: posix_isabs_def)
  then show ?thesis
    using assms(1,2) b by (simp add: resolve_path_def posix_join_def posix_isabs_def)
qed

text \<open>
  C4. \<^verbatim>\<open>load_image\<close> raises \<^verbatim>\<open>FileNotFoundError\<close> exactly when the resolved path does
  not exist. The message is then \<^verbatim>\<open>Image not found at path: \<close> followed by the resolved
  path, the only file-system call made is the existence check, and so no file has been
  opened. The resolved path is absolute when the base directory is (on POSIX).
\<close>

theorem load_image_missing_file:
  "((\<exists>msg. snd (load_image h p) = Inl (FileNotFoundError msg))
      \<longleftrightarrow> \<not> path_exists h (resolve_path h p)) \<and>
   (\<not> path_exists h (resolve_path h p) \<longrightarrow>
      load_image h p =
        ([Call_exists (resolve_path h p)],
         Inl (FileNotFoundError (''Image not found at path: '' @ resolve_path h p))) \<and>
      (\<forall>q. Call_open q \<notin> set (fst (load_image h p)))) \<and>
   (isabs h = posix_isabs \<and> join h = posix_join \<and> posix_isabs (base_path h) \<longrightarrow>
      posix_isabs (resolve_path h p))"
proof -
  have "snd (load_image h p) \<noteq> Inl (FileNotFoundError msg)"
    if "path_exists h (resolve_path h p)" for msg
    using that
    by (auto simp: load_image_def Let_def stack_outputs_def torch_cat_def
        split: option.splits prod.splits sum.splits list.splits if_splits)
  moreover have "load_image h p =
        ([Call_exists (resolve_path h p)],
         Inl (FileNotFoundError (''Image not found at path: '' @ resolve_path h p)))"
    if "\<not> path_exists h (resolve_path h p)"
    using that by (simp add: load_image_def Let_def)
  ultimately show ?thesis
    using posix_resolve_absolute [of h p] by auto
qed

text \<open>An instance: a relative path to a file that the concrete host does not have.\<close>

theorem load_image_missing_file_witness:
  "\<not> path_exists demo_host (resolve_path demo_host ''input/none.png'') \<and>
   load_image demo_host ''input/none.png'' =
     ([Call_exists ''/comfy/input/none.png''],
      Inl (FileNotFoundError ''Image not found at path: /comfy/input/none.png'')) \<and>
   isabs demo_host = posix_isabs \<and> join demo_host = posix_join \<and>
   posix_isabs (base_path demo_host) \<and>
   posix_isabs (resolve_path demo_host ''input/none.png'')"
proof -
  have r: "resolve_path demo_host ''input/none.png'' = ''/comfy/input/none.png''"
    by (simp add: resolve_path_def demo_host_def posix_isabs_def posix_join_def)
  have m: "\<not> path_exists demo_host (resolve_path demo_host ''input/none.png'')"
    unfolding r by (simp add: demo_host_def demo_files_def)
  have a: "isabs demo_host = posix_isabs \<and> join demo_host = posix_join \<and>
      posix_isabs (base_path demo_host)"
    by (simp add: demo_host_def posix_isabs_def)
  show ?thesis
    using load_image_missing_file [of demo_host "''input/none.png''"] m a
    by (simp add: r)
qed

text \<open>The frame functions and the loop do not read the base directory.\<close>

lemma frame_fns_base_path [simp]:
  "frame_image (h\<lparr>base_path := b\<rparr>) = frame_image h"
  "frame_mask (h\<lparr>base_path := b\<rparr>) = frame_mask h"
  by (auto simp: fun_eq_iff frame_image_def frame_rgb_def frame_mask_def)

lemma frames_loop_base_path:
  "frames_loop (h\<lparr>base_path := b\<rparr>) frames = frames_loop h frames"
  by (simp add: fun_eq_iff frames_loop_map)

text \<open>
  C6. A relative path is joined to the base directory and an absolute path is used as
  given, before anything else is done. The existence check and the opening are made on
  the resolved path: the check first, then the opening; the outcome is decided by what
  the file system holds at the resolved path (missing, not decodable, or the frames that
  are stacked), and changing the file system anywhere else, also at the path as given,
  changes nothing. The base directory is used for nothing else: changing it without
  changing the resolved path (always so for an absolute path) changes neither the calls
  nor the result.
\<close>

theorem load_image_path_resolution:
  "(\<not> isabs h p \<longrightarrow> resolve_path h p = join h (base_path h) p) \<and>
   (isabs h p \<longrightarrow> resolve_path h p = p) \<and>
   (fst (load_image h p) = [Call_exists (resolve_path h p)] \<or>
    fst (load_image h p) = [Call_exists (resolve_path h p), Call_open (resolve_path h p)]) \<and>
   (\<not> path_exists h (resolve_path h p) \<longrightarrow>
      load_image h p =
        ([Call_exists (resolve_path h p)],
         Inl (FileNotFoundError (''Image not found at path: '' @ resolve_path h p)))) \<and>
   (path_exists h (resolve_path h p) \<and> Image_open h (resolve_path h p) = None \<longrightarrow>
      load_image h p =
        ([Call_exists (resolve_path h p), Call_open (resolve_path h p)], Inl DecodeFailure)) \<and>
   (\<forall>frames. path_exists h (resolve_path h p) \<and>
              Image_open h (resolve_path h p) = Some frames \<longrightarrow>
      load_image h p =
        ([Call_exists (resolve_path h p), Call_open (resolve_path h p)],
         stack_outputs (frames_loop h frames [] []))) \<and>
   (pe (resolve_path h p) = path_exists h (resolve_path h p) \<and>
    io (resolve_path h p) = Image_open h (resolve_path h p) \<longrightarrow>
      load_image (h\<lparr>path_exists := pe, Image_open := io\<rparr>) p = load_image h p) \<and>
   (resolve_path (h\<lparr>base_path := b\<rparr>) p = resolve_path h p \<longrightarrow>
      load_image (h\<lparr>base_path := b\<rparr>) p = load_image h p) \<and>
   (isabs h p \<longrightarrow> load_image (h\<lparr>base_path := b\<rparr>) p = load_image h p)"
proof -
  let ?r = "resolve_path h p"
  have tr: "fst (load_image h p) = [Call_exists ?r] \<or>
    fst (load_image h p) = [Call_exists ?r, Call_open ?r]"
    by (simp add: load_image_def Let_def split: option.splits)
  have missing: "load_image h p =
      ([Call_exists ?r], Inl (FileNotFoundError (''Image not found at path: '' @ ?r)))"
    if "\<not> path_exists h ?r"
    using that by (simp add: load_image_def Let_def)
  have undecodable: "load_image h p = ([Call_exists ?r, Call_open ?r], Inl DecodeFailure)"
    if "path_exists h ?r" "Image_open h ?r = None"
    using that by (simp add: load_image_def Let_def)
  have decoded: "load_image h p =
      ([Call_exists ?r, Call_open ?r], stack_outputs (frames_loop h frames [] []))"
    if "path_exists h ?r" "Image_open h ?r = Some frames" for frames
    using that by (simp add: load_image_def Let_def)
  have loop: "frames_loop (h\<lparr>path_exists := pe, Image_open := io\<rparr>) frames = frames_loop h frames"
    for frames
    by (simp add: fun_eq_iff frames_loop_map frame_image_def frame_rgb_def frame_mask_def)
  have local: "load_image (h\<lparr>path_exists := pe, Image_open := io\<rparr>) p = load_image h p"
    if "pe ?r = path_exists h ?r" "io ?r = Image_open h ?r"
  proof -
    have "resolve_path (h\<lparr>path_exists := pe, Image_open := io\<rparr>) p = ?r"
      by (simp add: resolve_path_def)
    then show ?thesis
      using that by (simp add: load_image_def Let_def loop split: option.splits)
  qed
  have same: "load_image (h\<lparr>base_path := b\<rparr>) p = load_image h p"
    if "resolve_path (h\<lparr>base_path := b\<rparr>) p = resolve_path h p"
    using that by (simp add: load_image_def Let_def frames_loop_base_path split: option.splits)
  have abs: "resolve_path (h\<lparr>base_path := b\<rparr>) p = resolve_path h p" if "isabs h p"
    using that by (simp add: resolve_path_def)
  have res: "(\<not> isabs h p \<longrightarrow> ?r = join h (base_path h) p) \<and> (isabs h p \<longrightarrow> ?r = p)"
    by (simp add: resolve_path_def)
  show ?thesis
    using res tr missing undecodable decoded local same abs by blast
qed

text \<open>
  An instance: a relative path that names no file as given and a file below the base
  directory; a relative path to no file; the other file system, where the path as given
  names another file; the base directory written with and without a final slash; and an
  absolute path, with another base directory.
\<close>

theorem load_image_path_resolution_witness:
  "\<not> isabs demo_host ''input/rgba.png'' \<and>
   resolve_path demo_host ''input/rgba.png'' = ''/comfy/input/rgba.png'' \<and>
   join demo_host (base_path demo_host) ''input/rgba.png'' = ''/comfy/input/rgba.png'' \<and>
   \<not> path_exists demo_host ''input/rgba.png'' \<and>
   path_exists demo_host (resolve_path demo_host ''input/rgba.png'') \<and>
   Image_open demo_host (resolve_path demo_host ''input/rgba.png'') = Some [rgba_frame] \<and>
   load_image demo_host ''input/rgba.png'' =
     ([Call_exists ''/comfy/input/rgba.png'', Call_open ''/comfy/input/rgba.png''],
      stack_outputs (frames_loop demo_host [rgba_frame] [] [])) \<and>
   stack_outputs (frames_loop demo_host [rgba_frame] [] []) = Inr (rgba_image, rgba_mask) \<and>
   \<not> path_exists demo_host (resolve_path demo_host ''input/none.png'') \<and>
   load_image demo_host ''input/none.png'' =
     ([Call_exists ''/comfy/input/none.png''],
      Inl (FileNotFoundError ''Image not found at path: /comfy/input/none.png'')) \<and>
   cwd_files ''input/rgba.png'' = Some [opaque_frame] \<and>
   cwd_files (resolve_path demo_host ''input/rgba.png'')
     = Image_open demo_host (resolve_path demo_host ''input/rgba.png'') \<and>
   load_image (demo_host\<lparr>path_exists := (\<lambda>q. cwd_files q \<noteq> None), Image_open := cwd_files\<rparr>)
       ''input/rgba.png''
     = load_image demo_host ''input/rgba.png'' \<and>
   resolve_path (demo_host\<lparr>base_path := ''/comfy/''\<rparr>) ''input/rgba.png''
     = resolve_path demo_host ''input/rgba.png'' \<and>
   load_image (demo_host\<lparr>base_path := ''/comfy/''\<rparr>) ''input/rgba.png''
     = load_image demo_host ''input/rgba.png'' \<and>
   isabs demo_host ''/comfy/input/rgba.png'' \<and>
   resolve_path demo_host ''/comfy/input/rgba.png'' = ''/comfy/input/rgba.png'' \<and>
   load_image (demo_host\<lparr>base_path := ''/elsewhere''\<rparr>) ''/comfy/input/rgba.png''
     = load_image demo_host ''/comfy/input/rgba.png''"
proof -
  have rel: "\<not> isabs demo_host ''input/rgba.png''"
    and ab: "isabs demo_host ''/comfy/input/rgba.png''"
    by (simp_all add: demo_host_def posix_isabs_def)
  have j: "join demo_host (base_path demo_host) ''input/rgba.png'' = ''/comfy/input/rgba.png''"
    by (simp add: demo_host_def posix_join_def)
  have r: "resolve_path (demo_host\<lparr>base_path := ''/comfy/''\<rparr>) ''input/rgba.png''
     = resolve_path demo_host ''input/rgba.png''"
    by (simp add: resolve_path_def demo_host_def posix_isabs_def posix_join_def)
  have rn: "resolve_path demo_host ''input/none.png'' = ''/comfy/input/none.png''"
    by (simp add: resolve_path_def demo_host_def posix_isabs_def posix_join_def)
  have un: "\<not> path_exists demo_host ''input/rgba.png''"
    and no: "\<not> path_exists demo_host ''/comfy/input/none.png''"
    by (simp_all add: demo_host_def demo_files_def)
  have ex: "path_exists demo_host (resolve_path demo_host ''input/rgba.png'')"
    and op: "Image_open demo_host (resolve_path demo_host ''input/rgba.png'') = Some [rgba_frame]"
    by (simp_all add: demo_resolve demo_exists demo_open)
  have cw: "cwd_files ''input/rgba.png'' = Some [opaque_frame]"
    "cwd_files ''/comfy/input/rgba.png'' = Some [rgba_frame]"
    by (simp_all add: cwd_files_def)
  have st: "stack_outputs (frames_loop demo_host [rgba_frame] [] []) = Inr (rgba_image, rgba_mask)"
    using load_image_path_resolution [of demo_host "''input/rgba.png''"] ex op demo_load_rgba
    by simp
  note t1 = load_image_path_resolution
      [of demo_host "''input/rgba.png''" "\<lambda>q. cwd_files q \<noteq> None" cwd_files "''/comfy/''"]
  note t2 = load_image_path_resolution
      [of demo_host "''/comfy/input/rgba.png''" _ _ "''/elsewhere''"]
  note t3 = load_image_path_resolution [of demo_host "''input/none.png''"]
  have l1: "load_image demo_host ''input/rgba.png'' =
     ([Call_exists ''/comfy/input/rgba.png'', Call_open ''/comfy/input/rgba.png''],
      stack_outputs (frames_loop demo_host [rgba_frame] [] []))"
    using t1 ex op by (simp add: demo_resolve)
  have l2: "load_image (demo_host\<lparr>path_exists := (\<lambda>q. cwd_files q \<noteq> None), Image_open := cwd_files\<rparr>)
       ''input/rgba.png'' = load_image demo_host ''input/rgba.png''"
    using t1 ex op cw by (simp add: demo_resolve)
  have l3: "load_image (demo_host\<lparr>base_path := ''/comfy/''\<rparr>) ''input/rgba.png''
     = load_image demo_host ''input/rgba.png''"
    using t1 r by blast
  have l4: "load_image (demo_host\<lparr>base_path := ''/elsewhere''\<rparr>) ''/comfy/input/rgba.png''
     = load_image demo_host ''/comfy/input/rgba.png''"
    using t2 ab by blast
  have l5: "resolve_path demo_host ''/comfy/input/rgba.png'' = ''/comfy/input/rgba.png''"
    using t2 ab by blast
  have l6: "load_image demo_host ''input/none.png'' =
     ([Call_exists ''/comfy/input/none.png''],
      Inl (FileNotFoundError ''Image not found at path: /comfy/input/none.png''))"
    using t3 no by (simp add: rn)
  show ?thesis
    using rel ab j r un no ex op cw st l1 l2 l3 l4 l5 l6
    by (simp add: demo_resolve rn)
qed

section \<open>Frames, masks and stacking\<close>

text \<open>
  C5. For a frame of the loop, with \<open>i\<close> the frame after \<^verbatim>\<open>exif_transpose\<close>: if \<open>i\<close> has
  a band \<^verbatim>\<open>'A'\<close>, the mask has the size of \<open>i\<close> and its element in row \<open>y\<close> and column
  \<open>x\<close> is the float32 result of \<^verbatim>\<open>1.0 - a / 255.0\<close> for the alpha sample \<open>a\<close> there; it
  lies in the unit interval, within \<open>1 / 2 ^ 23\<close> of the exact \<open>1 - a / 255\<close>. If \<open>i\<close> has
  no such band, the mask is 64 by 64 zeros. These masks, each with a leading dimension
  of 1, are what the loop collects.
\<close>

theorem frame_mask_from_alpha:
  assumes "exif_transpose h i0 = i"
  shows "(''A'' \<in> set (bands i) \<longrightarrow>
            shape (frame_mask h i0) = [height i, width i] \<and>
            length (data (frame_mask h i0)) = height i * width i \<and>
            (\<forall>y x. y < height i \<and> x < width i \<longrightarrow>
               data (frame_mask h i0) ! (y * width i + x)
                 = f32_round (1 - f32_round (of_nat (unat (alpha_pixel i x y)) / 255)) \<and>
               0 \<le> data (frame_mask h i0) ! (y * width i + x) \<and>
               data (frame_mask h i0) ! (y * width i + x) \<le> 1 \<and>
               \<bar>data (frame_mask h i0) ! (y * width i + x)
                  - (1 - of_nat (unat (alpha_pixel i x y)) / 255)\<bar> \<le> 1 / 2 ^ 23)) \<and>
         (''A'' \<notin> set (bands i) \<longrightarrow>
            frame_mask h i0 = \<lparr>shape = [64, 64], data = replicate (64 * 64) 0\<rparr>) \<and>
         frames_loop h frames [] [] =
           (map (frame_image h) frames, map (\<lambda>f. unsqueeze0 (frame_mask h f)) frames)"
proof -
  have alpha: "frame_mask h i0 =
      \<lparr>shape = [height i, width i],
       data = map (\<lambda>v. f32_round (1 - v))
                (map (\<lambda>v. f32_round (v / 255))
                   (map (\<lambda>x. of_nat (unat x)) (data (np_array_A i))))\<rparr>"
    if "''A'' \<in> set (bands i)"
    using that assms
    by (simp add: frame_mask_def rsub_scalar_def from_numpy_def div_scalar_def
        astype_float32_def np_array_A_def)
  have idx: "y * width i + x < height i * width i" if "y < height i" "x < width i" for x y
  proof -
    have "y * width i + width i \<le> height i * width i"
      using that(1) by (metis Suc_leI mult_Suc mult_le_mono1 add.commute)
    then show ?thesis using that(2) by simp
  qed
  have el: "data (frame_mask h i0) ! (y * width i + x)
        = f32_round (1 - f32_round (of_nat (unat (alpha_pixel i x y)) / 255))"
    if "''A'' \<in> set (bands i)" "y < height i" "x < width i" for x y
    using that idx [OF that(2,3)]
    by (simp add: alpha np_array_A_length np_array_A_nth)
  have zero: "frame_mask h i0 = \<lparr>shape = [64, 64], data = replicate (64 * 64) 0\<rparr>"
    if "''A'' \<notin> set (bands i)"
    using that assms by (simp add: frame_mask_def torch_zeros_def)
  show ?thesis
    using alpha el zero mask_sample
    by (simp add: frames_loop_map np_array_A_length)
qed

text \<open>An instance: the RGBA frame (alpha 255 and 0) and the opaque frame.\<close>

theorem frame_mask_from_alpha_witness:
  "exif_transpose demo_host rgba_frame = rgba_frame \<and>
   ''A'' \<in> set (bands rgba_frame) \<and>
   shape (frame_mask demo_host rgba_frame) = [1, 2] \<and>
   data (frame_mask demo_host rgba_frame) ! (0 * 2 + 0) = 0 \<and>
   data (frame_mask demo_host rgba_frame) ! (0 * 2 + 1) = 1 \<and>
   exif_transpose demo_host opaque_frame = opaque_frame \<and>
   ''A'' \<notin> set (bands opaque_frame) \<and>
   frame_mask demo_host opaque_frame = \<lparr>shape = [64, 64], data = replicate (64 * 64) 0\<rparr>"
proof -
  have a: "''A'' \<in> set (bands rgba_frame)" "height rgba_frame = 1" "width rgba_frame = 2"
    "alpha_pixel rgba_frame 0 0 = 255" "alpha_pixel rgba_frame 1 0 = 0"
    by (simp_all add: rgba_frame_def)
  have b: "''A'' \<notin> set (bands opaque_frame)"
    by (simp add: opaque_frame_def)
  have m0: "data (frame_mask demo_host rgba_frame) ! (0 * 2 + 0) = 0"
    using frame_mask_from_alpha [OF demo_transpose, of rgba_frame] a
    by (simp add: f32_round_0 f32_round_1)
  have m1: "data (frame_mask demo_host rgba_frame) ! (0 * 2 + 1) = 1"
    using frame_mask_from_alpha [OF demo_transpose, of rgba_frame] a
    by (simp add: f32_round_0 f32_round_1)
  show ?thesis
    using frame_mask_from_alpha [OF demo_transpose, of rgba_frame]
      frame_mask_from_alpha [OF demo_transpose, of opaque_frame] a b m0 m1
    by (simp add: demo_transpose)
qed

text \<open>
  C3. When \<^verbatim>\<open>load_image\<close> returns for a file of \<open>N\<close> frames, the first dimension of the
  image tensor and of the mask tensor is \<open>N\<close>, and for every \<open>k < N\<close> the \<open>k\<close>-th slice
  of the image tensor is the \<open>k\<close>-th frame of the file and the \<open>k\<close>-th slice of the mask
  tensor is that frame's mask: the frames are laid out one after the other in file order.
\<close>

theorem load_image_frame_count:
  assumes "load_image h p = (tr, Inr (img, msk))"
    and "Image_open h (resolve_path h p) = Some frames"
  shows "hd (shape img) = length frames \<and>
         hd (shape msk) = length frames \<and>
         0 < length frames \<and>
         (\<forall>k. k < length frames \<longrightarrow>
            select0 img k = frame_rgb h (frames ! k) \<and>
            select0 msk k = frame_mask h (frames ! k)) \<and>
         data img = concat (map (\<lambda>f. data (frame_rgb h f)) frames) \<and>
         data msk = concat (map (\<lambda>f. data (frame_mask h f)) frames)"
proof -
  have "stack_outputs (frames_loop h frames [] []) = Inr (img, msk)"
    using load_image_returns(2) [OF assms(1)] assms(2) by simp
  note s = stack_outputs_slices [OF this]
  show ?thesis using s by simp
qed

text \<open>An instance: the file with two frames.\<close>

theorem load_image_frame_count_witness:
  "load_image demo_host ''input/two.tiff'' =
     ([Call_exists ''/comfy/input/two.tiff'', Call_open ''/comfy/input/two.tiff''],
      Inr (two_image, two_mask)) \<and>
   Image_open demo_host (resolve_path demo_host ''input/two.tiff'')
     = Some [rgba_frame, rgba_frame] \<and>
   hd (shape two_image) = 2 \<and>
   hd (shape two_mask) = 2 \<and>
   select0 two_image 1 = frame_rgb demo_host rgba_frame \<and>
   select0 two_mask 1 = frame_mask demo_host rgba_frame"
proof -
  have op: "Image_open demo_host (resolve_path demo_host ''input/two.tiff'')
     = Some [rgba_frame, rgba_frame]"
    by (simp add: demo_resolve demo_open)
  note c = load_image_frame_count [OF demo_load_two op]
  have k: "(1 :: nat) < length [rgba_frame, rgba_frame]" by simp
  from c have "\<forall>k. k < length [rgba_frame, rgba_frame] \<longrightarrow>
      select0 two_image k = frame_rgb demo_host ([rgba_frame, rgba_frame] ! k) \<and>
      select0 two_mask k = frame_mask demo_host ([rgba_frame, rgba_frame] ! k)"
    by (elim conjE)
  with k have "select0 two_image 1 = frame_rgb demo_host ([rgba_frame, rgba_frame] ! 1) \<and>
      select0 two_mask 1 = frame_mask demo_host ([rgba_frame, rgba_frame] ! 1)"
    by blast
  moreover have "hd (shape two_image) = 2" "hd (shape two_mask) = 2"
    using c by simp_all
  ultimately show ?thesis
    using demo_load_two op by simp
qed

text \<open>
  C7. An image tensor that \<^verbatim>\<open>load_image\<close> returns has the shape (frames, height, width,
  3), with the height and width of the first frame after \<^verbatim>\<open>exif_transpose\<close>, and holds
  that many elements; each is the float32 result of \<open>n / 255\<close> for an integer \<open>n\<close> from
  0 to 255 and lies between 0 and 1.
\<close>

theorem load_image_image_tensor:
  assumes "load_image h p = (tr, Inr (img, msk))"
  shows "\<exists>frames H W.
           Image_open h (resolve_path h p) = Some frames \<and>
           H = height (exif_transpose h (hd frames)) \<and>
           W = width (exif_transpose h (hd frames)) \<and>
           shape img = [length frames, H, W, 3] \<and>
           length (data img) = length frames * (H * W * 3) \<and>
           (\<forall>v. v \<in> set (data img) \<longrightarrow>
              0 \<le> v \<and> v \<le> 1 \<and> (\<exists>n. n \<le> 255 \<and> v = f32_round (of_nat n / 255)))"
proof -
  obtain frames where op: "Image_open h (resolve_path h p) = Some frames"
    and st: "stack_outputs (frames_loop h frames [] []) = Inr (img, msk)"
    using load_image_returns(2) [OF assms] by blast
  note s = stack_outputs_slices [OF st]
  let ?H = "height (exif_transpose h (hd frames))"
  let ?W = "width (exif_transpose h (hd frames))"
  have sh: "shape img = [length frames, ?H, ?W, 3]"
    using s(2) by (simp add: frame_rgb_shape)
  have same: "shape (frame_rgb h f) = [?H, ?W, 3]" if mem: "f \<in> set frames" for f
  proof -
    obtain k where k: "k < length frames" "frames ! k = f"
      using mem by (auto simp: in_set_conv_nth)
    have "shape (select0 img k) = tl (shape img)" by (simp add: select0_def Let_def)
    then show ?thesis using s(6) [OF k(1)] k(2) sh by simp
  qed
  have len1: "length (data (frame_rgb h f)) = ?H * ?W * 3" if "f \<in> set frames" for f
    using frame_rgb_wf [of h f] same [OF that] by (simp add: wf_array_def)
  have len: "length (data img) = length frames * (?H * ?W * 3)"
    unfolding s(4)
    by (subst length_concat_const [where n = "?H * ?W * 3"]) (auto simp: len1)
  have el: "0 \<le> v \<and> v \<le> 1 \<and> (\<exists>n. n \<le> 255 \<and> v = f32_round (of_nat n / 255))"
    if mem: "v \<in> set (data img)" for v
  proof -
    obtain f where "v \<in> set (data (frame_rgb h f))"
      using mem unfolding s(4) by auto
    then obtain n :: nat where n: "n \<le> 255" "v = f32_round (of_nat n / 255)"
      using frame_rgb_data by blast
    have "0 \<le> (of_nat n / 255 :: rat) \<and> (of_nat n / 255 :: rat) \<le> 1"
      using n(1) by (rule nat_byte_unit)
    then have "0 \<le> v \<and> v \<le> 1" using f32_round_unit n(2) by simp
    then show ?thesis using n by blast
  qed
  show ?thesis using op sh len el by blast
qed

text \<open>An instance: the file with one RGBA frame.\<close>

theorem load_image_image_tensor_witness:
  "load_image demo_host ''input/rgba.png'' =
     ([Call_exists ''/comfy/input/rgba.png'', Call_open ''/comfy/input/rgba.png''],
      Inr (rgba_image, rgba_mask)) \<and>
   shape rgba_image = [1, 1, 2, 3] \<and>
   (\<exists>frames H W.
      Image_open demo_host (resolve_path demo_host ''input/rgba.png'') = Some frames \<and>
      shape rgba_image = [length frames, H, W, 3] \<and>
      length (data rgba_image) = length frames * (H * W * 3))"
proof -
  have "\<exists>frames H W.
      Image_open demo_host (resolve_path demo_host ''input/rgba.png'') = Some frames \<and>
      shape rgba_image = [length frames, H, W, 3] \<and>
      length (data rgba_image) = length frames * (H * W * 3)"
    using load_image_image_tensor [OF demo_load_rgba] by blast
  then show ?thesis
    using demo_load_rgba by (simp add: rgba_image_def)
qed

text \<open>
  C8. For a file of one frame, taking the only element of each list gives what
  concatenating the one-element lists gives: the loader and the loader that always
  stacks agree, and both return the frame's image and mask.
\<close>

theorem single_frame_skip_is_stack:
  assumes "Image_open h (resolve_path h p) = Some frames" and "length frames = 1"
  shows "load_image h p = load_image_always_stack h p \<and>
         stack_outputs (frames_loop h frames [] []) = stack_always (frames_loop h frames [] []) \<and>
         stack_outputs (frames_loop h frames [] []) =
           Inr (frame_image h (hd frames), unsqueeze0 (frame_mask h (hd frames)))"
proof -
  obtain f where f: "frames = [f]" using assms(2) by (cases frames) auto
  have a: "stack_outputs (frames_loop h frames [] []) =
      Inr (frame_image h f, unsqueeze0 (frame_mask h f))"
    by (simp add: f stack_outputs_def)
  have b: "stack_always (frames_loop h frames [] []) =
      Inr (frame_image h f, unsqueeze0 (frame_mask h f))"
    by (simp add: f stack_always_def torch_cat_singleton frame_image_nonscalar
        frame_mask_nonscalar)
  show ?thesis
    using a b assms(1) by (simp add: load_image_def load_image_always_stack_def Let_def f)
qed

text \<open>An instance: the file with one RGBA frame.\<close>

theorem single_frame_skip_is_stack_witness:
  "Image_open demo_host (resolve_path demo_host ''input/rgba.png'') = Some [rgba_frame] \<and>
   length [rgba_frame] = 1 \<and>
   load_image_always_stack demo_host ''input/rgba.png'' =
     ([Call_exists ''/comfy/input/rgba.png'', Call_open ''/comfy/input/rgba.png''],
      Inr (rgba_image, rgba_mask))"
proof -
  have op: "Image_open demo_host (resolve_path demo_host ''input/rgba.png'') = Some [rgba_frame]"
    by (simp add: demo_resolve demo_open)
  have one: "length [rgba_frame] = 1" by simp
  show ?thesis
    using single_frame_skip_is_stack [OF op one] demo_load_rgba op
    by simp
qed

text \<open>
  C10. For a file of one frame without a band \<^verbatim>\<open>'A'\<close> whose size is not 64 by 64,
  \<^verbatim>\<open>load_image\<close> returns, the image tensor has the frame's height and width, the mask
  tensor is 64 by 64, and so the two differ in their spatial dimensions.
\<close>

theorem opaque_mask_size_differs:
  assumes "path_exists h (resolve_path h p)"
    and "Image_open h (resolve_path h p) = Some [f]"
    and "exif_transpose h f = i"
    and "''A'' \<notin> set (bands i)"
    and "(height i, width i) \<noteq> (64, 64)"
  shows "\<exists>img msk. snd (load_image h p) = Inr (img, msk) \<and>
           shape img = [1, height i, width i, 3] \<and>
           shape msk = [1, 64, 64] \<and>
           (shape img ! 1, shape img ! 2) \<noteq> (shape msk ! 1, shape msk ! 2)"
  using assms
  by (simp add: load_image_def Let_def stack_outputs_def frame_image_shape unsqueeze0_def
      frame_mask_def torch_zeros_def)

text \<open>An instance: the opaque frame of two columns and one row.\<close>

theorem opaque_mask_size_differs_witness:
  "path_exists demo_host (resolve_path demo_host ''input/opaque.png'') \<and>
   Image_open demo_host (resolve_path demo_host ''input/opaque.png'') = Some [opaque_frame] \<and>
   exif_transpose demo_host opaque_frame = opaque_frame \<and>
   ''A'' \<notin> set (bands opaque_frame) \<and>
   (height opaque_frame, width opaque_frame) \<noteq> (64, 64) \<and>
   (\<exists>img msk. snd (load_image demo_host ''input/opaque.png'') = Inr (img, msk) \<and>
      shape img = [1, 1, 2, 3] \<and> shape msk = [1, 64, 64])"
proof -
  have ex: "path_exists demo_host (resolve_path demo_host ''input/opaque.png'')"
    and op: "Image_open demo_host (resolve_path demo_host ''input/opaque.png'') = Some [opaque_frame]"
    by (simp_all add: demo_resolve demo_open demo_exists)
  have b: "''A'' \<notin> set (bands opaque_frame)"
    and sz: "(height opaque_frame, width opaque_frame) \<noteq> (64, 64)"
    and hw: "height opaque_frame = 1" "width opaque_frame = 2"
    by (simp_all add: opaque_frame_def)
  show ?thesis
    using opaque_mask_size_differs [OF ex op demo_transpose b sz] ex op b sz hw
    by (auto simp: demo_transpose)
qed

end
